theory Spec2Isabelle
  imports Complex_Main "HOL-Library.Word" "HOL-Library.Signed_Division" "HOL-Library.Log_Nat"
begin

unbundle bit_operations_syntax

section \<open>Runtime primitives of the generated C++ kernels (\<open>cpp_prefix.h\<close>)\<close>

text \<open>
  The header defines a type-generic modulo, a conversion of a random 32-bit word to a uniform
  float, two Philox-based random functions, the integer alias of a floating type, a
  compare-and-swap based atomic addition, and the conversion of flags to float masks.
  Each is embedded below as a HOL function over the data the C++ code manipulates:
  machine integers are words, memory is an explicit store, undefined behaviour is a fault,
  and a loop that need not terminate returns \<open>None\<close> when it does not.
\<close>

datatype fault = DivisionByZero | QuotientOverflow | OutOfBounds

subsection \<open>IEEE-754 binary floating point, by exact values\<close>

text \<open>
  A floating-point datum is a signed zero or finite number, an infinity or a NaN. A finite
  datum is kept as its sign and its exact magnitude, a non-negative rational. An
  arithmetic operation is the exact operation on rationals followed by rounding to the
  format: to the nearest representable number, ties to the one with an even significand
  (the default rounding mode, which the header never changes).

  \<open>floor_log2 x\<close> is the binary exponent of a positive rational: the \<open>e\<close> with
  \<open>2 powi e \<le> x < 2 powi (e + 1)\<close>. It is computed from the bit lengths of numerator and
  denominator.
\<close>

definition floor_log2 :: "rat \<Rightarrow> int" where
  "floor_log2 x = (let (p, q) = quotient_of x; d = bitlen p - bitlen q
                   in if power_int 2 d \<le> x then d else d - 1)"

text \<open>Rounding of a rational to the nearest integer, ties to even.\<close>

definition rne :: "rat \<Rightarrow> int" where
  "rne x = (let f = \<lfloor>x\<rfloor>; d = x - of_int f
            in if d < 1 / 2 then f else if 1 / 2 < d then f + 1
               else if even f then f else f + 1)"

text \<open>
  Rounding to a binary format with \<open>p\<close> significand bits whose smallest subnormal is
  \<open>2 powi emin\<close>: the unit in the last place of \<open>x\<close> is \<open>2 powi (floor_log2 \<bar>x\<bar> - (p - 1))\<close>,
  but never below \<open>2 powi emin\<close>.
\<close>

definition fp_round :: "nat \<Rightarrow> int \<Rightarrow> rat \<Rightarrow> rat" where
  "fp_round p emin x =
     (if x = 0 then 0
      else let u = max (floor_log2 \<bar>x\<bar> - (int p - 1)) emin
           in of_int (rne (x / power_int 2 u)) * power_int 2 u)"

definition f32_round :: "rat \<Rightarrow> rat" where
  "f32_round = fp_round 24 (- 149)"

definition f64_round :: "rat \<Rightarrow> rat" where
  "f64_round = fp_round 53 (- 1074)"

datatype fp = Finite bool rat | Infinity bool | NaN

text \<open>The rounded result of an operation with the given sign and exact magnitude (binary32).
  A result that rounds to \<open>2 powi 128\<close> or more overflows to an infinity.\<close>

definition f32_of_mag :: "bool \<Rightarrow> rat \<Rightarrow> fp" where
  "f32_of_mag s m = (let r = f32_round m in if 2 ^ 128 \<le> r then Infinity s else Finite s r)"

definition is_finite :: "fp \<Rightarrow> bool" where
  "is_finite x = (case x of Finite s m \<Rightarrow> True | _ \<Rightarrow> False)"

definition valof :: "fp \<Rightarrow> rat" where
  "valof x = (case x of Finite s m \<Rightarrow> (if s then - m else m) | _ \<Rightarrow> 0)"

text \<open>Conversion of integers to \<open>float\<close>: \<open>static_cast<float>\<close> of an \<open>unsigned int\<close>, and the
  lane operation of \<open>_mm256_cvtepi32_ps\<close> / \<open>_mm512_cvtepi32_ps\<close> on a signed 32-bit integer.
  Zero converts to \<open>+0.0\<close>.\<close>

definition float_of_uint32 :: "32 word \<Rightarrow> fp" where
  "float_of_uint32 w = f32_of_mag False (of_nat (unat w))"

definition float_of_int32 :: "32 word \<Rightarrow> fp" where
  "float_of_int32 w = f32_of_mag (sint w < 0) (of_int \<bar>sint w\<bar>)"

text \<open>Multiplication of two \<open>float\<close>s.\<close>

fun f32_mul :: "fp \<Rightarrow> fp \<Rightarrow> fp" where
  "f32_mul NaN y = NaN"
| "f32_mul x NaN = NaN"
| "f32_mul (Infinity s) (Infinity t) = Infinity (s \<noteq> t)"
| "f32_mul (Infinity s) (Finite t b) = (if b = 0 then NaN else Infinity (s \<noteq> t))"
| "f32_mul (Finite s a) (Infinity t) = (if a = 0 then NaN else Infinity (s \<noteq> t))"
| "f32_mul (Finite s a) (Finite t b) = f32_of_mag (s \<noteq> t) (a * b)"



text \<open>The bit pattern of a binary32 datum: sign, 8 bits of biased exponent, 23 bits of
  fraction. (For a NaN the quiet NaN with empty payload is taken.)\<close>

definition f32_bits :: "fp \<Rightarrow> 32 word" where
  "f32_bits x =
     (case x of
        NaN \<Rightarrow> 0x7FC00000
      | Infinity s \<Rightarrow> (if s then 0x80000000 else 0) OR 0x7F800000
      | Finite s m \<Rightarrow>
          (if s then 0x80000000 else 0) OR
          (if m = 0 then 0
           else let e = floor_log2 m
                in if e < - 126 then word_of_int \<lfloor>m / power_int 2 (- 149)\<rfloor>
                   else push_bit 23 (word_of_int (e + 127))
                        OR word_of_int (\<lfloor>m / power_int 2 (e - 23)\<rfloor> - 2 ^ 23)))"

text \<open>Contextual conversion of a \<open>float\<close> to \<open>bool\<close>: everything but a zero is true.\<close>

definition fp_truthy :: "fp \<Rightarrow> bool" where
  "fp_truthy x = (case x of Finite s m \<Rightarrow> m \<noteq> 0 | _ \<Rightarrow> True)"

subsection \<open>\<open>mod\<close>\<close>








subsection \<open>\<open>uint32_to_uniform_float\<close> and the random functions\<close>

text \<open>
  \<^verbatim>\<open>constexpr float scale = 4.6566127342e-10;\<close>
  The literal has type \<open>double\<close> and is converted to \<open>float\<close> by the initialisation.
\<close>

definition scale :: fp where
  "scale = f32_of_mag False (f64_round (46566127342 / 10 ^ 20))"

text \<open>\<^verbatim>\<open>return static_cast<float>(value & 0x7FFFFFFF) * scale;\<close>\<close>

definition uint32_to_uniform_float :: "32 word \<Rightarrow> fp" where
  "uint32_to_uniform_float v = f32_mul (float_of_uint32 (v AND 0x7FFFFFFF)) scale"

text \<open>
  The Philox engine \<open>at::Philox4_32\<close> comes from \<open>ATen/core/PhiloxRNGEngine.h\<close>, which is not
  part of the header. It is a parameter of the model: its constructor from
  \<open>(seed, subsequence, offset)\<close>, its call operator, which returns one 32-bit word and
  advances the engine, and \<open>randn\<close>, which returns a float and advances the engine.
\<close>

record 'e philox =
  philox_init :: "32 word \<Rightarrow> nat \<Rightarrow> 32 word \<Rightarrow> 'e"
  philox_call :: "'e \<Rightarrow> 32 word \<times> 'e"
  philox_randn :: "'e \<Rightarrow> nat \<Rightarrow> fp \<times> 'e"

text \<open>
  \<^verbatim>\<open>return uint32_to_uniform_float(at::Philox4_32(seed, 0, offset)());\<close>

  The engine is a temporary of the call: it is constructed, called once and dropped.
\<close>

definition normalized_rand_cpu :: "'e philox \<Rightarrow> 32 word \<Rightarrow> 32 word \<Rightarrow> fp" where
  "normalized_rand_cpu P seed offset =
     (let engine = philox_init P seed 0 offset;
          (w, engine') = philox_call P engine
      in uint32_to_uniform_float w)"

text \<open>\<^verbatim>\<open>at::Philox4_32 engine(seed, 0, offset); return engine.randn(10);\<close>\<close>

definition randn_cpu :: "'e philox \<Rightarrow> 32 word \<Rightarrow> 32 word \<Rightarrow> fp" where
  "randn_cpu P seed offset =
     (let engine = philox_init P seed 0 offset;
          (r, engine') = philox_randn P engine 10
      in r)"

subsection \<open>\<open>AsIntegerType\<close>\<close>

text \<open>The scalar types of the kernels, and the alias \<open>AsIntegerType<T>::type\<close>: the primary
  template maps a type to itself, the four specialisations map a floating type to an
  unsigned integer type.\<close>

datatype ctype =
  Float | Double | BFloat16 | Half
  | Bool | Int8 | UInt8 | Int16 | UInt16 | Int32 | UInt32 | Int64 | UInt64

fun AsIntegerType :: "ctype \<Rightarrow> ctype" where
  "AsIntegerType Float = UInt32"
| "AsIntegerType Double = UInt64"
| "AsIntegerType BFloat16 = UInt16"
| "AsIntegerType Half = UInt16"
| "AsIntegerType T = T"

text \<open>Modelled from the spec: the declarations of the scalar types (\<open>at::Half\<close>,
  \<open>at::BFloat16\<close>, the fixed-width integers) are not part of the header; the spec gives
  their widths (32-bit and 64-bit floats, two 16-bit floating variants, integers of the
  width in their name). \<open>sizeof\<close> counts bytes.\<close>

fun sizeof :: "ctype \<Rightarrow> nat" where
  "sizeof Float = 4"
| "sizeof Double = 8"
| "sizeof BFloat16 = 2"
| "sizeof Half = 2"
| "sizeof Bool = 1"
| "sizeof Int8 = 1"
| "sizeof UInt8 = 1"
| "sizeof Int16 = 2"
| "sizeof UInt16 = 2"
| "sizeof Int32 = 4"
| "sizeof UInt32 = 4"
| "sizeof Int64 = 8"
| "sizeof UInt64 = 8"

text \<open>
  \<^verbatim>\<open>static_assert(sizeof(std::atomic<alt_type>) == sizeof(T), "std::atomic issue");\<close>

  Instantiating \<open>atomic_add<T>\<close> evaluates the assertion while compiling. The size of
  \<open>std::atomic<U>\<close> is given by the C++ implementation and is a parameter. The result of
  the instantiation is a compile error, or the alias type the instance works with.\<close>

datatype compile_error = StaticAssertFailed string

definition atomic_add_instantiate :: "(ctype \<Rightarrow> nat) \<Rightarrow> ctype \<Rightarrow> compile_error + ctype" where
  "atomic_add_instantiate sizeof_atomic T =
     (let alt_type = AsIntegerType T
      in if sizeof_atomic alt_type = sizeof T then Inr alt_type
         else Inl (StaticAssertFailed ''std::atomic issue''))"

subsection \<open>\<open>atomic_add\<close>\<close>

text \<open>
  Memory maps an address to the bit pattern stored there; \<open>'v\<close> is the type of the bit
  patterns of a \<open>T\<close> object, which are also the values of \<open>alt_type\<close>: the union \<open>uf_int\<close>
  reads the same bits as \<open>fV\<close> and as \<open>intV\<close>. The addition of \<open>T\<close> is a parameter \<open>add\<close> on
  bit patterns.

  \<open>std::atomic_compare_exchange_strong(obj, expected, desired)\<close> compares \<open>*obj\<close> with
  \<open>*expected\<close>; if they are equal it stores \<open>desired\<close> into \<open>*obj\<close> and returns true,
  otherwise it loads \<open>*obj\<close> into \<open>*expected\<close> and returns false, all in one atomic step.
\<close>

type_synonym 'v memory = "nat \<Rightarrow> 'v"

definition atomic_compare_exchange_strong ::
  "'v memory \<Rightarrow> nat \<Rightarrow> 'v \<Rightarrow> 'v \<Rightarrow> bool \<times> 'v memory \<times> 'v" where
  "atomic_compare_exchange_strong mem obj expected desired =
     (if mem obj = expected then (True, mem(obj := desired), expected)
      else (False, mem, mem obj))"

text \<open>
  Other threads may write to the memory between any two accesses of the calling thread.
  What they do is the parameter \<open>env\<close>: \<open>env k\<close> transforms the memory between the
  \<open>k\<close>-th access of the call and the next one (accesses are counted from 0: the first
  read of \<open>*addr\<close>, the first compare-exchange, the read in the loop body, the second
  compare-exchange, and so on).

  The loop has no bound; when it does not terminate the result is \<open>None\<close>. The result
  of a terminating call is the memory it leaves and the number of times the loop body
  was executed.
\<close>

partial_function (option) atomic_add_loop ::
  "(nat \<Rightarrow> 'v memory \<Rightarrow> 'v memory) \<Rightarrow> ('v \<Rightarrow> 'v \<Rightarrow> 'v) \<Rightarrow> nat \<Rightarrow> 'v \<Rightarrow>
   nat \<Rightarrow> 'v memory \<Rightarrow> 'v \<Rightarrow> 'v \<Rightarrow> nat \<Rightarrow> ('v memory \<times> nat) option" where
  "atomic_add_loop env add addr offset k mem expected desired iterations =
     (let (exchanged, mem', expected_intV) =
            atomic_compare_exchange_strong mem addr expected desired
      in if exchanged then Some (mem', iterations)
         else
           (let mem1 = env k mem';
                expected' = mem1 addr;
                desired' = add expected' offset;
                mem2 = env (k + 1) mem1
            in atomic_add_loop env add addr offset (k + 2) mem2 expected' desired'
                 (iterations + 1)))"

definition atomic_add ::
  "(nat \<Rightarrow> 'v memory \<Rightarrow> 'v memory) \<Rightarrow> ('v \<Rightarrow> 'v \<Rightarrow> 'v) \<Rightarrow> 'v memory \<Rightarrow> nat \<Rightarrow> 'v \<Rightarrow>
   ('v memory \<times> nat) option" where
  "atomic_add env add mem addr offset =
     (let expected = mem addr;
          desired = add expected offset;
          mem0 = env 0 mem
      in atomic_add_loop env add addr offset 1 mem0 expected desired 0)"

text \<open>
  For several threads that call \<open>atomic_add\<close> on one location, a call is cut into its
  atomic steps, and a schedule decides which thread takes the next step. A thread is
  either about to read \<open>*addr\<close> (at the beginning of a call, or in the loop body after a
  failed exchange), or about to execute the compare-exchange with the \<open>expected\<close> and
  \<open>desired\<close> it has computed. \<open>calls_left\<close> counts the calls the thread has not yet
  completed; a successful exchange completes one.
\<close>

datatype 'v pc = AtLoad | AtExchange 'v 'v

record 'v thread =
  pc :: "'v pc"
  calls_left :: nat

definition thread_step ::
  "('v \<Rightarrow> 'v \<Rightarrow> 'v) \<Rightarrow> nat \<Rightarrow> 'v \<Rightarrow> 'v memory \<Rightarrow> 'v thread \<Rightarrow> 'v memory \<times> 'v thread" where
  "thread_step add addr offset mem t =
     (if calls_left t = 0 then (mem, t)
      else case pc t of
        AtLoad \<Rightarrow>
          (let expected = mem addr; desired = add expected offset
           in (mem, t\<lparr>pc := AtExchange expected desired\<rparr>))
      | AtExchange expected desired \<Rightarrow>
          (let (exchanged, mem', expected_intV) =
                 atomic_compare_exchange_strong mem addr expected desired
           in if exchanged then (mem', t\<lparr>pc := AtLoad, calls_left := calls_left t - 1\<rparr>)
              else (mem', t\<lparr>pc := AtLoad\<rparr>)))"

record 'v system =
  shared :: "'v memory"
  threads :: "'v thread list"

definition step ::
  "('v \<Rightarrow> 'v \<Rightarrow> 'v) \<Rightarrow> nat \<Rightarrow> 'v \<Rightarrow> nat \<Rightarrow> 'v system \<Rightarrow> 'v system" where
  "step add addr offset i s =
     (if i < length (threads s) then
        (let (mem', t') = thread_step add addr offset (shared s) (threads s ! i)
         in \<lparr>shared = mem', threads = (threads s)[i := t']\<rparr>)
      else s)"

definition run ::
  "('v \<Rightarrow> 'v \<Rightarrow> 'v) \<Rightarrow> nat \<Rightarrow> 'v \<Rightarrow> nat list \<Rightarrow> 'v system \<Rightarrow> 'v system" where
  "run add addr offset schedule s = fold (step add addr offset) schedule s"

text \<open>\<open>N\<close> threads, each about to make \<open>M\<close> calls.\<close>

definition start :: "nat \<Rightarrow> nat \<Rightarrow> 'v memory \<Rightarrow> 'v system" where
  "start N M mem = \<lparr>shared = mem, threads = replicate N \<lparr>pc = AtLoad, calls_left = M\<rparr>\<rparr>"






subsection \<open>Flag-to-mask conversion: \<open>flag_to_float\<close>\<close>

text \<open>
  The destination \<open>float* dst\<close> is only ever written through the pointer
  \<open>(uint32_t*)dst\<close>, so the destination array is modelled by the 32-bit words it holds.
  The source elements are bytes (\<open>bool\<close> or \<open>uint8_t\<close>) or of any other integer type; the
  condition \<open>*(src + i) ? \<dots> : \<dots>\<close> tests them against zero. An access outside either
  array is undefined behaviour in C++ and is a fault of the model. The counter \<open>i\<close> stays
  below \<open>n\<close>, so the 64-bit addition \<open>i++\<close> does not overflow and the integers are
  unbounded here.
\<close>

function flag_to_float_loop ::
  "'a::len word list \<Rightarrow> 32 word list \<Rightarrow> int \<Rightarrow> int \<Rightarrow> fault + 32 word list" where
  "flag_to_float_loop src dst n i =
     (if i < n then
        (if 0 \<le> i \<and> nat i < length src \<and> nat i < length dst then
           flag_to_float_loop src
             (dst[nat i := (if src ! nat i \<noteq> 0 then 0xFFFFFFFF else 0)]) n (i + 1)
         else Inl OutOfBounds)
      else Inr dst)"
  by pat_completeness auto
termination
  by (relation "measure (\<lambda>(src, dst, n, i). nat (n - i))") auto

declare flag_to_float_loop.simps [simp del]

definition flag_to_float :: "'a::len word list \<Rightarrow> 32 word list \<Rightarrow> int \<Rightarrow> fault + 32 word list" where
  "flag_to_float src dst n = flag_to_float_loop src dst n 0"

text \<open>The overload that takes the flag by value (\<open>bool\<close> or \<open>uint8_t\<close>) and writes its mask
  \<open>n\<close> times.\<close>

function flag_to_float_scalar_loop ::
  "8 word \<Rightarrow> 32 word list \<Rightarrow> int \<Rightarrow> int \<Rightarrow> fault + 32 word list" where
  "flag_to_float_scalar_loop src dst n i =
     (if i < n then
        (if 0 \<le> i \<and> nat i < length dst then
           flag_to_float_scalar_loop src
             (dst[nat i := (if src \<noteq> 0 then 0xFFFFFFFF else 0)]) n (i + 1)
         else Inl OutOfBounds)
      else Inr dst)"
  by pat_completeness auto
termination
  by (relation "measure (\<lambda>(src, dst, n, i). nat (n - i))") auto

declare flag_to_float_scalar_loop.simps [simp del]

definition flag_to_float_scalar :: "8 word \<Rightarrow> 32 word list \<Rightarrow> int \<Rightarrow> fault + 32 word list" where
  "flag_to_float_scalar src dst n = flag_to_float_scalar_loop src dst n 0"

subsection \<open>\<open>to_float_mask\<close>\<close>

text \<open>
  A vector register \<open>at::vec::Vectorized<T>\<close> is the list of its lanes. The generic
  function stores the source lanes to \<open>src_tmp\<close>, assigns
  \<^verbatim>\<open>dst_tmp[i] = src_tmp[i] ? 0xFFFFFFFF : 0;\<close>
  for every lane, and loads the result from \<open>dst_tmp\<close>. \<open>dst_tmp\<close> is an array of \<open>float\<close>
  and the right-hand side has type \<open>unsigned int\<close>, so the assignment converts an
  \<open>unsigned int\<close> to \<open>float\<close>. The conversion of a source lane to \<open>bool\<close> depends on the
  lane type \<open>SRC\<close> and is the parameter \<open>truthy\<close>. The assertion at the entry compares the
  lane counts of \<open>Vectorized<float>\<close> and \<open>Vectorized<SRC>\<close>; the result list has the length
  of the source list.
\<close>

definition to_float_mask :: "('a \<Rightarrow> bool) \<Rightarrow> 'a list \<Rightarrow> fp list" where
  "to_float_mask truthy src =
     (let src_tmp = src;
          dst_tmp = map (\<lambda>x. float_of_uint32 (if truthy x then 0xFFFFFFFF else 0)) src_tmp
      in dst_tmp)"

text \<open>The conversion to \<open>bool\<close> of an \<open>int\<close> lane.\<close>

definition int_truthy :: "32 word \<Rightarrow> bool" where
  "int_truthy x = (x \<noteq> 0)"

text \<open>The specialisation for \<open>Vectorized<int>\<close>: \<open>_mm256_cvtepi32_ps\<close> (\<open>_mm512_cvtepi32_ps\<close>
  with AVX-512) converts every signed 32-bit lane to the nearest \<open>float\<close>.\<close>

definition to_float_mask_int :: "32 word list \<Rightarrow> fp list" where
  "to_float_mask_int src = map float_of_int32 src"

section \<open>Properties\<close>

subsection \<open>The batch conversion of flags\<close>

lemma flag_to_float_loop_result:
  "0 \<le> i \<Longrightarrow> n \<le> int (length src) \<Longrightarrow> n \<le> int (length dst) \<Longrightarrow>
   \<exists>dst'. flag_to_float_loop src dst n i = Inr dst' \<and> length dst' = length dst \<and>
     (\<forall>k<length dst. dst' ! k = (if i \<le> int k \<and> int k < n
         then (if src ! k \<noteq> 0 then 0xFFFFFFFF else 0) else dst ! k))"
proof (induction src dst n i rule: flag_to_float_loop.induct)
  case (1 src dst n i)
  show ?case
  proof (cases "i < n")
    case False
    then show ?thesis by (subst flag_to_float_loop.simps) auto
  next
    case True
    let ?d = "dst[nat i := (if src ! nat i \<noteq> 0 then 0xFFFFFFFF else 0)]"
    from True 1(2-4) have ib: "0 \<le> i \<and> nat i < length src \<and> nat i < length dst" by auto
    have p1: "0 \<le> i + 1" using ib by simp
    have p3: "n \<le> int (length ?d)" using 1(4) by simp
    have "\<exists>dst'. flag_to_float_loop src ?d n (i + 1) = Inr dst' \<and> length dst' = length ?d \<and>
     (\<forall>k<length ?d. dst' ! k = (if i + 1 \<le> int k \<and> int k < n
         then (if src ! k \<noteq> 0 then 0xFFFFFFFF else 0) else ?d ! k))"
      by (rule 1(1)[OF True ib p1 1(3) p3])
    then obtain dst' where d: "flag_to_float_loop src ?d n (i + 1) = Inr dst'"
      "length dst' = length dst"
      "\<forall>k<length dst. dst' ! k = (if i + 1 \<le> int k \<and> int k < n
         then (if src ! k \<noteq> 0 then 0xFFFFFFFF else 0) else ?d ! k)"
      by auto
    have "flag_to_float_loop src dst n i = Inr dst'"
      using True ib d(1) by (subst flag_to_float_loop.simps) simp
    moreover have "\<forall>k<length dst. dst' ! k = (if i \<le> int k \<and> int k < n
         then (if src ! k \<noteq> 0 then 0xFFFFFFFF else 0) else dst ! k)"
    proof (intro allI impI)
      fix k assume k: "k < length dst"
      show "dst' ! k = (if i \<le> int k \<and> int k < n
         then (if src ! k \<noteq> 0 then 0xFFFFFFFF else 0) else dst ! k)"
      proof (cases "k = nat i")
        case True
        then show ?thesis using d(3) k ib \<open>i < n\<close> by (auto simp: nth_list_update)
      next
        case False
        then show ?thesis using d(3) k ib by (auto simp: nth_list_update)
      qed
    qed
    ultimately show ?thesis using d(2) by blast
  qed
qed

text \<open>
  Claim C4. For every count \<open>n\<close> within the two arrays, the batch \<open>flag_to_float\<close> returns
  normally and leaves a destination in which word \<open>k\<close>, for \<open>0 \<le> k < n\<close>, is \<open>0xFFFFFFFF\<close> if
  source flag \<open>k\<close> is non-zero and \<open>0\<close> if it is zero; the word depends on no other
  position, and the destination beyond \<open>n\<close> is unchanged. The source \<open>[1,0,1,1,0]\<close> gives
  \<open>[0xFFFFFFFF, 0, 0xFFFFFFFF, 0xFFFFFFFF, 0]\<close> whatever the five destination words were.
\<close>

theorem flag_to_float_batch:
  assumes "n \<le> int (length src)" and "n \<le> int (length dst)"
  shows "(\<exists>dst'. flag_to_float src dst n = Inr dst' \<and> length dst' = length dst \<and>
           (\<forall>k<length dst. dst' ! k =
              (if int k < n then (if src ! k \<noteq> 0 then 0xFFFFFFFF else 0) else dst ! k))) \<and>
         (length d5 = 5 \<longrightarrow>
            flag_to_float [1, 0, 1, 1, 0 :: 8 word] d5 5
              = Inr [0xFFFFFFFF, 0, 0xFFFFFFFF, 0xFFFFFFFF, 0])"
proof
  show "\<exists>dst'. flag_to_float src dst n = Inr dst' \<and> length dst' = length dst \<and>
           (\<forall>k<length dst. dst' ! k =
              (if int k < n then (if src ! k \<noteq> 0 then 0xFFFFFFFF else 0) else dst ! k))"
    using flag_to_float_loop_result[of 0 n src dst] assms by (simp add: flag_to_float_def)
next
  show "length d5 = 5 \<longrightarrow>
            flag_to_float [1, 0, 1, 1, 0 :: 8 word] d5 5
              = Inr [0xFFFFFFFF, 0, 0xFFFFFFFF, 0xFFFFFFFF, 0]"
  proof
    assume l: "length d5 = 5"
    let ?src = "[1, 0, 1, 1, 0 :: 8 word]"
    from flag_to_float_loop_result[of 0 5 ?src d5] l
    obtain dst' where d: "flag_to_float ?src d5 5 = Inr dst'" "length dst' = 5"
      "\<forall>k<5. dst' ! k = (if ?src ! k \<noteq> 0 then 0xFFFFFFFF else 0)"
      by (auto simp: flag_to_float_def)
    have "dst' = [0xFFFFFFFF, 0, 0xFFFFFFFF, 0xFFFFFFFF, 0]"
    proof (rule nth_equalityI)
      show "length dst' = length [0xFFFFFFFF, 0, 0xFFFFFFFF, 0xFFFFFFFF, 0 :: 32 word]"
        using d(2) by simp
    next
      fix k assume "k < length dst'"
      then have "k < 5" using d(2) by simp
      then consider "k = 0" | "k = 1" | "k = 2" | "k = 3" | "k = 4" by linarith
      then show "dst' ! k = [0xFFFFFFFF, 0, 0xFFFFFFFF, 0xFFFFFFFF, 0] ! k"
        using d(3) by cases auto
    qed
    with d(1) show "flag_to_float ?src d5 5 = Inr [0xFFFFFFFF, 0, 0xFFFFFFFF, 0xFFFFFFFF, 0]"
      by simp
  qed
qed

theorem flag_to_float_batch_witness:
  "(3::int) \<le> int (length [0, 2, 0, 1 :: 8 word]) \<and> (3::int) \<le> int (length [5, 6, 7, 8 :: 32 word]) \<and>
   (\<exists>dst'. flag_to_float [0, 2, 0, 1 :: 8 word] [5, 6, 7, 8] 3 = Inr dst' \<and>
      dst' ! 0 = 0 \<and> dst' ! 1 = 0xFFFFFFFF \<and> dst' ! 2 = 0 \<and> dst' ! 3 = 8) \<and>
   flag_to_float [1, 0, 1, 1, 0 :: 8 word] [9, 9, 9, 9, 9] 5
     = Inr [0xFFFFFFFF, 0, 0xFFFFFFFF, 0xFFFFFFFF, 0]"
proof -
  have a: "(3::int) \<le> int (length [0, 2, 0, 1 :: 8 word])" by simp
  have b: "(3::int) \<le> int (length [5, 6, 7, 8 :: 32 word])" by simp
  from flag_to_float_batch[OF a b, of "[9, 9, 9, 9, 9]"]
  obtain dst' where d: "flag_to_float [0, 2, 0, 1 :: 8 word] [5, 6, 7, 8] 3 = Inr dst'"
    "\<forall>k<4. dst' ! k =
        (if int k < 3 then (if [0, 2, 0, 1 :: 8 word] ! k \<noteq> 0 then 0xFFFFFFFF else 0)
         else [5, 6, 7, 8] ! k)"
    and e: "flag_to_float [1, 0, 1, 1, 0 :: 8 word] [9, 9, 9, 9, 9] 5
     = Inr [0xFFFFFFFF, 0, 0xFFFFFFFF, 0xFFFFFFFF, 0]"
    by auto
  have "dst' ! 0 = 0" "dst' ! 1 = 0xFFFFFFFF" "dst' ! 2 = 0" "dst' ! 3 = 8"
    using d(2)[rule_format, of 0] d(2)[rule_format, of 1] d(2)[rule_format, of 2]
      d(2)[rule_format, of 3] by simp_all
  with a b d(1) e show ?thesis by simp
qed

subsection \<open>Rounding\<close>

lemma pow2_pos [simp]: "(0::rat) < power_int 2 e"
  by (simp add: zero_less_power_int)

lemma pow2_less_iff: "(power_int 2 a :: rat) < power_int 2 b \<longleftrightarrow> a < b"
proof
  assume l: "(power_int 2 a :: rat) < power_int 2 b"
  show "a < b"
  proof (rule ccontr)
    assume "\<not> a < b"
    then have "b \<le> a" by simp
    then have "(power_int 2 b :: rat) \<le> power_int 2 a" by (intro power_int_increasing) simp_all
    with l show False by simp
  qed
next
  assume "a < b" then show "(power_int 2 a :: rat) < power_int 2 b"
    by (intro power_int_strict_increasing) simp_all
qed

lemma pow2_le_iff: "(power_int 2 a :: rat) \<le> power_int 2 b \<longleftrightarrow> a \<le> b"
  using pow2_less_iff[of b a] by (auto simp: not_less[symmetric])

lemma pow2_add: "(power_int 2 (a + b) :: rat) = power_int 2 a * power_int 2 b"
  by (simp add: power_int_add)

lemma floor_log2_bounds:
  assumes "0 < x"
  shows "power_int 2 (floor_log2 x) \<le> x" and "x < power_int 2 (floor_log2 x + 1)"
proof -
  obtain p q where pq: "quotient_of x = (p, q)" by (cases "quotient_of x")
  have q: "0 < q" using quotient_of_denom_pos[OF pq] .
  have x: "x = of_int p / of_int q" using quotient_of_div[OF pq] .
  have p: "0 < p" using assms q x by (simp add: zero_less_divide_iff)
  define bp where "bp = bitlen p"
  define bq where "bq = bitlen q"
  have bp1: "1 \<le> bp" and bq1: "1 \<le> bq"
    using p q bitlen_eq_zero_iff[of p] bitlen_eq_zero_iff[of q] bitlen_nonneg[of p] bitlen_nonneg[of q]
    by (auto simp: bp_def bq_def)
  have pl: "(power_int 2 (bp - 1) :: rat) \<le> of_int p" and pu: "of_int p < (power_int 2 bp :: rat)"
  proof -
    have "2 ^ nat (bp - 1) \<le> p" "p < 2 ^ nat bp" using bitlen_bounds[OF p] by (auto simp: bp_def)
    then have "(of_int (2 ^ nat (bp - 1)) :: rat) \<le> of_int p" "(of_int p :: rat) < of_int (2 ^ nat bp)"
      by (simp_all only: of_int_le_iff of_int_less_iff)
    then show "(power_int 2 (bp - 1) :: rat) \<le> of_int p" "of_int p < (power_int 2 bp :: rat)"
      using bp1 by (simp_all add: power_int_def)
  qed
  have ql: "(power_int 2 (bq - 1) :: rat) \<le> of_int q" and qu: "of_int q < (power_int 2 bq :: rat)"
  proof -
    have "2 ^ nat (bq - 1) \<le> q" "q < 2 ^ nat bq" using bitlen_bounds[OF q] by (auto simp: bq_def)
    then have "(of_int (2 ^ nat (bq - 1)) :: rat) \<le> of_int q" "(of_int q :: rat) < of_int (2 ^ nat bq)"
      by (simp_all only: of_int_le_iff of_int_less_iff)
    then show "(power_int 2 (bq - 1) :: rat) \<le> of_int q" "of_int q < (power_int 2 bq :: rat)"
      using bq1 by (simp_all add: power_int_def)
  qed
  have qpos: "(0::rat) < of_int q" using q by simp
  have lo: "(power_int 2 (bp - bq - 1) :: rat) < x"
  proof -
    have "(power_int 2 (bp - bq - 1) :: rat) * of_int q < power_int 2 (bp - bq - 1) * power_int 2 bq"
      by (intro mult_strict_left_mono qu) simp
    also have "\<dots> = power_int 2 (bp - 1)"
      by (simp add: pow2_add[symmetric])
    also have "\<dots> \<le> of_int p" by (rule pl)
    finally show ?thesis using qpos by (simp add: x pos_less_divide_eq)
  qed
  have hi: "x < (power_int 2 (bp - bq + 1) :: rat)"
  proof -
    have "(of_int p :: rat) < power_int 2 bp" by (rule pu)
    also have "\<dots> = power_int 2 (bp - bq + 1) * power_int 2 (bq - 1)"
      by (simp add: pow2_add[symmetric])
    also have "\<dots> \<le> power_int 2 (bp - bq + 1) * of_int q"
      by (intro mult_left_mono ql) simp
    finally show ?thesis using qpos by (simp add: x pos_divide_less_eq)
  qed
  have fl: "floor_log2 x = (if power_int 2 (bp - bq) \<le> x then bp - bq else bp - bq - 1)"
    by (simp add: floor_log2_def pq bp_def bq_def Let_def)
  show "power_int 2 (floor_log2 x) \<le> x"
    using lo by (simp add: fl)
  show "x < power_int 2 (floor_log2 x + 1)"
    using hi by (simp add: fl)
qed

lemma floor_log2_unique:
  assumes "power_int 2 e \<le> x" "x < power_int 2 (e + 1)"
  shows "floor_log2 x = e"
proof -
  have x: "0 < x" using assms(1) pow2_pos[of e] by linarith
  note b = floor_log2_bounds[OF x]
  have "(power_int 2 e :: rat) < power_int 2 (floor_log2 x + 1)" using assms(1) b(2) by simp
  then have 1: "e < floor_log2 x + 1" by (simp add: pow2_less_iff)
  have "(power_int 2 (floor_log2 x) :: rat) < power_int 2 (e + 1)" using assms(2) b(1) by simp
  then have 2: "floor_log2 x < e + 1" by (simp add: pow2_less_iff)
  from 1 2 show ?thesis by simp
qed

lemma rne_mono: "x \<le> y \<Longrightarrow> rne x \<le> rne y"
proof -
  assume xy: "x \<le> y"
  have fx: "\<lfloor>x\<rfloor> \<le> rne x" "rne x \<le> \<lfloor>x\<rfloor> + 1" by (simp_all add: rne_def Let_def)
  have fy: "\<lfloor>y\<rfloor> \<le> rne y" by (simp_all add: rne_def Let_def)
  have f: "\<lfloor>x\<rfloor> \<le> \<lfloor>y\<rfloor>" using xy by (rule floor_mono)
  show ?thesis
  proof (cases "\<lfloor>x\<rfloor> = \<lfloor>y\<rfloor>")
    case True
    then show ?thesis using xy by (auto simp: rne_def Let_def)
  next
    case False
    then show ?thesis using f fx fy by linarith
  qed
qed

lemma rne_of_int [simp]: "rne (of_int n) = n"
  by (simp add: rne_def)

lemma rne_minus: "rne (- x) = - rne x"
proof (cases "x \<in> \<int>")
  case True
  then obtain n where "x = of_int n" by (auto elim: Ints_cases)
  then show ?thesis by (simp flip: of_int_minus)
next
  case False
  have ne: "x \<noteq> of_int \<lfloor>x\<rfloor>" using False by (metis Ints_of_int)
  then have c: "\<lceil>x\<rceil> = \<lfloor>x\<rfloor> + 1" by (simp add: ceiling_altdef)
  have "\<lfloor>- x\<rfloor> = - \<lfloor>x\<rfloor> - 1" using c by (simp add: floor_minus)
  with ne show ?thesis
    by (auto simp: rne_def Let_def)
qed

lemma floor_log2_mono:
  assumes "0 < x" "x \<le> y"
  shows "floor_log2 x \<le> floor_log2 y"
proof -
  have y: "0 < y" using assms by simp
  have "(power_int 2 (floor_log2 x) :: rat) \<le> x" by (rule floor_log2_bounds(1)[OF assms(1)])
  also have "x \<le> y" by fact
  also have "y < power_int 2 (floor_log2 y + 1)" by (rule floor_log2_bounds(2)[OF y])
  finally show ?thesis by (simp add: pow2_less_iff)
qed

lemma fp_round_minus: "fp_round p emin (- x) = - fp_round p emin x"
  by (simp add: fp_round_def Let_def rne_minus)

lemma fp_round_nonneg:
  assumes "0 \<le> x"
  shows "0 \<le> fp_round p emin x"
proof (cases "x = 0")
  case True
  then show ?thesis by (simp add: fp_round_def)
next
  case False
  define u where "u = max (floor_log2 \<bar>x\<bar> - (int p - 1)) emin"
  have "0 \<le> x / power_int 2 u" using assms by simp
  then have "rne 0 \<le> rne (x / power_int 2 u)" by (rule rne_mono)
  then have "0 \<le> rne (x / power_int 2 u)" using rne_of_int[of 0] by simp
  then show ?thesis using False by (simp add: fp_round_def Let_def u_def[symmetric])
qed

lemma fp_round_mono_pos:
  assumes x: "0 < x" and xy: "x \<le> y" and p: "0 < p"
  shows "fp_round p emin x \<le> fp_round p emin y"
proof -
  have y: "0 < y" using x xy by simp
  define ex where "ex = floor_log2 x"
  define ey where "ey = floor_log2 y"
  define ux where "ux = max (ex - (int p - 1)) emin"
  define uy where "uy = max (ey - (int p - 1)) emin"
  have rx: "fp_round p emin x = of_int (rne (x / power_int 2 ux)) * power_int 2 ux"
    using x by (simp add: fp_round_def Let_def ux_def ex_def)
  have ry: "fp_round p emin y = of_int (rne (y / power_int 2 uy)) * power_int 2 uy"
    using y by (simp add: fp_round_def Let_def uy_def ey_def)
  have exy: "ex \<le> ey" unfolding ex_def ey_def by (rule floor_log2_mono[OF x xy])
  then have uxy: "ux \<le> uy" by (simp add: ux_def uy_def)
  show ?thesis
  proof (cases "ux = uy")
    case True
    have "x / power_int 2 uy \<le> y / power_int 2 uy"
      using xy by (simp add: divide_right_mono)
    then have "rne (x / power_int 2 uy) \<le> rne (y / power_int 2 uy)" by (rule rne_mono)
    then have "(of_int (rne (x / power_int 2 uy)) :: rat) \<le> of_int (rne (y / power_int 2 uy))"
      by simp
    then show ?thesis unfolding rx ry True
      by (intro mult_right_mono) simp_all
  next
    case False
    with uxy have lt: "ux < uy" by simp
    then have uy_eq: "uy = ey - (int p - 1)" and "emin < uy"
      by (auto simp: ux_def uy_def)
    have exlt: "ex < ey" using lt uy_eq by (auto simp: ux_def )
    define k where "k = nat (ey - ux)"
    have kpos: "ey - ux \<ge> 0" using lt uy_eq p by simp
    have N: "(power_int 2 (ey - ux) :: rat) = of_int (2 ^ k)"
      using kpos by (simp add: k_def power_int_def)
    have "x < power_int 2 (ex + 1)" unfolding ex_def by (rule floor_log2_bounds(2)[OF x])
    also have "\<dots> \<le> power_int 2 ey" using exlt by (simp add: pow2_le_iff)
    finally have xle: "x \<le> power_int 2 ey" by simp
    have "x / power_int 2 ux \<le> power_int 2 ey / power_int 2 ux"
      using xle by (simp add: divide_right_mono)
    also have "\<dots> = power_int 2 (ey - ux)" by (simp add: power_int_diff)
    finally have "x / power_int 2 ux \<le> of_int (2 ^ k)" by (simp add: N)
    then have "rne (x / power_int 2 ux) \<le> rne (of_int (2 ^ k))" by (rule rne_mono)
    then have "rne (x / power_int 2 ux) \<le> 2 ^ k" by (simp only: rne_of_int)
    then have "(of_int (rne (x / power_int 2 ux)) :: rat) \<le> of_int (2 ^ k)"
      by (simp only: of_int_le_iff)
    then have "fp_round p emin x \<le> of_int (2 ^ k) * power_int 2 ux"
      unfolding rx by (intro mult_right_mono) simp_all
    also have "\<dots> = power_int 2 (ey - ux) * power_int 2 ux" by (simp only: N)
    also have "\<dots> = power_int 2 ey" by (simp add: pow2_add[symmetric])
    finally have L: "fp_round p emin x \<le> power_int 2 ey" .
    define j where "j = nat (int p - 1)"
    have M: "(power_int 2 (ey - uy) :: rat) = of_int (2 ^ j)"
      using p by (simp add: uy_eq j_def power_int_def)
    have "(power_int 2 ey :: rat) \<le> y" unfolding ey_def by (rule floor_log2_bounds(1)[OF y])
    then have "power_int 2 ey / power_int 2 uy \<le> y / power_int 2 uy"
      by (simp add: divide_right_mono)
    moreover have "power_int 2 ey / power_int 2 uy = (of_int (2 ^ j) :: rat)"
      by (simp only: M[symmetric]) (simp add: power_int_diff)
    ultimately have "of_int (2 ^ j) \<le> y / power_int 2 uy"
      by simp
    then have "rne (of_int (2 ^ j)) \<le> rne (y / power_int 2 uy)" by (rule rne_mono)
    then have "2 ^ j \<le> rne (y / power_int 2 uy)" by (simp only: rne_of_int)
    then have "(of_int (2 ^ j) :: rat) \<le> of_int (rne (y / power_int 2 uy))"
      by (simp only: of_int_le_iff)
    then have "of_int (2 ^ j) * power_int 2 uy \<le> fp_round p emin y"
      unfolding ry by (intro mult_right_mono) simp_all
    moreover have "of_int (2 ^ j) * power_int 2 uy = (power_int 2 ey :: rat)"
      by (simp only: M[symmetric]) (simp add: pow2_add[symmetric])
    ultimately have R: "power_int 2 ey \<le> fp_round p emin y"
      by simp
    from L R show ?thesis by simp
  qed
qed

lemma fp_round_mono:
  assumes xy: "x \<le> y" and p: "0 < p"
  shows "fp_round p emin x \<le> fp_round p emin y"
proof -
  consider "0 < x" | "x \<le> 0" "0 \<le> y" | "y < 0" by linarith
  then show ?thesis
  proof cases
    case 1
    then show ?thesis using xy p by (rule fp_round_mono_pos)
  next
    case 2
    have "0 \<le> fp_round p emin (- x)" using 2(1) by (intro fp_round_nonneg) simp
    then have "fp_round p emin x \<le> 0" by (simp add: fp_round_minus)
    also have "0 \<le> fp_round p emin y" using 2(2) by (rule fp_round_nonneg)
    finally show ?thesis .
  next
    case 3
    have "fp_round p emin (- y) \<le> fp_round p emin (- x)"
      using 3 xy p by (intro fp_round_mono_pos) simp_all
    then show ?thesis by (simp add: fp_round_minus)
  qed
qed

lemma f32_round_mono: "x \<le> y \<Longrightarrow> f32_round x \<le> f32_round y"
  unfolding f32_round_def by (rule fp_round_mono) simp_all

lemma f32_round_nonneg: "0 \<le> x \<Longrightarrow> 0 \<le> f32_round x"
  unfolding f32_round_def by (rule fp_round_nonneg)

lemma f32_round_2p32: "f32_round 4294967296 = 4294967296"
  by code_simp

lemma f32_round_2p31: "f32_round 2147483648 = 2147483648"
  by code_simp

lemma f32_round_top: "f32_round (16777215 / 16777216) = 16777215 / 16777216"
  by code_simp

lemma scale_value: "scale = Finite False (16777215 / 2 ^ 55)"
  by code_simp

lemma float_of_uint32_finite:
  "float_of_uint32 w = Finite False (f32_round (of_nat (unat w)))"
proof -
  have "unat w < 2 ^ 32" using unsigned_less[of w] by simp
  then have "(of_nat (unat w) :: rat) < of_nat (2 ^ 32)" by (simp only: of_nat_less_iff)
  then have "(of_nat (unat w) :: rat) \<le> 4294967296" by simp
  then have "f32_round (of_nat (unat w)) \<le> f32_round 4294967296" by (rule f32_round_mono)
  then have "f32_round (of_nat (unat w)) \<le> 4294967296" by (simp only: f32_round_2p32)
  then have "\<not> 2 ^ 128 \<le> f32_round (of_nat (unat w))" by simp
  then show ?thesis by (simp add: float_of_uint32_def f32_of_mag_def Let_def)
qed

subsection \<open>The uniform float of a random word\<close>

lemma low31_bound: "unat (x AND (0x7FFFFFFF :: 32 word)) \<le> 2147483647"
proof -
  have "x AND 0x7FFFFFFF \<le> (0x7FFFFFFF :: 32 word)" by (rule word_and_le1)
  then have "unat (x AND 0x7FFFFFFF) \<le> unat (0x7FFFFFFF :: 32 word)"
    by (simp only: word_le_nat_alt)
  then show ?thesis by simp
qed

lemma uint32_to_uniform_float_value:
  "uint32_to_uniform_float x =
     Finite False (f32_round (f32_round (of_nat (unat (x AND 0x7FFFFFFF))) * (16777215 / 2 ^ 55)))"
  and uint32_to_uniform_float_range:
  "0 \<le> f32_round (f32_round (of_nat (unat (x AND 0x7FFFFFFF))) * (16777215 / 2 ^ 55))"
  "f32_round (f32_round (of_nat (unat (x AND 0x7FFFFFFF))) * (16777215 / 2 ^ 55))
     \<le> 16777215 / 16777216"
proof -
  define n where "n = unat (x AND 0x7FFFFFFF)"
  define a where "a = f32_round (of_nat n)"
  define r where "r = f32_round (a * (16777215 / 2 ^ 55))"
  have "(of_nat n :: rat) \<le> of_nat 2147483648"
    unfolding n_def using low31_bound[of x] by (simp only: of_nat_le_iff)
  then have "(of_nat n :: rat) \<le> 2147483648" by simp
  then have "a \<le> f32_round 2147483648" unfolding a_def by (rule f32_round_mono)
  then have a_hi: "a \<le> 2147483648" by (simp only: f32_round_2p31)
  have a_lo: "0 \<le> a" unfolding a_def by (rule f32_round_nonneg) simp
  have "a * (16777215 / 2 ^ 55) \<le> 2147483648 * (16777215 / 2 ^ 55)"
    using a_hi by (intro mult_right_mono) simp_all
  also have "\<dots> = (16777215 / 16777216 :: rat)" by simp
  finally have "r \<le> f32_round (16777215 / 16777216)" unfolding r_def by (rule f32_round_mono)
  then have r_hi: "r \<le> 16777215 / 16777216" by (simp only: f32_round_top)
  have r_lo: "0 \<le> r" unfolding r_def using a_lo by (intro f32_round_nonneg) simp
  have "\<not> 2 ^ 128 \<le> r" using r_hi by simp
  then have "f32_mul (Finite False a) (Finite False (16777215 / 2 ^ 55)) = Finite False r"
    by (simp add: f32_of_mag_def Let_def r_def)
  then show "uint32_to_uniform_float x =
     Finite False (f32_round (f32_round (of_nat (unat (x AND 0x7FFFFFFF))) * (16777215 / 2 ^ 55)))"
    by (simp add: uint32_to_uniform_float_def float_of_uint32_finite scale_value r_def a_def n_def)
  show "0 \<le> f32_round (f32_round (of_nat (unat (x AND 0x7FFFFFFF))) * (16777215 / 2 ^ 55))"
    using r_lo by (simp add: r_def a_def n_def)
  show "f32_round (f32_round (of_nat (unat (x AND 0x7FFFFFFF))) * (16777215 / 2 ^ 55))
     \<le> 16777215 / 16777216"
    using r_hi by (simp add: r_def a_def n_def)
qed

lemma uint32_to_uniform_float_mono:
  assumes "unat (x AND 0x7FFFFFFF) \<le> unat (y AND (0x7FFFFFFF :: 32 word))"
  shows "valof (uint32_to_uniform_float x) \<le> valof (uint32_to_uniform_float y)"
proof -
  have "(of_nat (unat (x AND 0x7FFFFFFF)) :: rat) \<le> of_nat (unat (y AND 0x7FFFFFFF))"
    using assms by (simp only: of_nat_le_iff)
  then have "f32_round (of_nat (unat (x AND 0x7FFFFFFF))) \<le> f32_round (of_nat (unat (y AND 0x7FFFFFFF)))"
    by (rule f32_round_mono)
  then have "f32_round (of_nat (unat (x AND 0x7FFFFFFF))) * (16777215 / 2 ^ 55)
      \<le> f32_round (of_nat (unat (y AND 0x7FFFFFFF))) * (16777215 / 2 ^ 55)"
    by (intro mult_right_mono) simp_all
  then have "f32_round (f32_round (of_nat (unat (x AND 0x7FFFFFFF))) * (16777215 / 2 ^ 55))
      \<le> f32_round (f32_round (of_nat (unat (y AND 0x7FFFFFFF))) * (16777215 / 2 ^ 55))"
    by (rule f32_round_mono)
  then show ?thesis
    by (simp add: uint32_to_uniform_float_value valof_def)
qed

lemma and_idem31: "(x AND 0x7FFFFFFF) AND (0x7FFFFFFF :: 32 word) = x AND 0x7FFFFFFF"
  by (simp only: and.assoc and.idem)

lemma and_mask_max: "(0x7FFFFFFF AND 0x7FFFFFFF :: 32 word) = 0x7FFFFFFF"
  by simp

lemma and_mask_ones: "(0xFFFFFFFF AND 0x7FFFFFFF :: 32 word) = 0x7FFFFFFF"
  by simp

lemma unat_mask_max: "unat (0x7FFFFFFF :: 32 word) = 2147483647"
  by simp


lemma round_max_product: "f32_round (f32_round 2147483647 * (16777215 / 2 ^ 55)) = 16777215 / 16777216"
  by code_simp

lemma uint32_to_uniform_float_max: "uint32_to_uniform_float 0x7FFFFFFF = Finite False (16777215 / 16777216)"
  by (simp only: uint32_to_uniform_float_value and_mask_max unat_mask_max of_nat_numeral round_max_product)

lemma uint32_to_uniform_float_ones: "uint32_to_uniform_float 0xFFFFFFFF = Finite False (16777215 / 16777216)"
  by (simp only: uint32_to_uniform_float_value and_mask_ones unat_mask_max of_nat_numeral round_max_product)

lemma or_top: "(x OR 0x80000000) AND (0x7FFFFFFF :: 32 word) = x AND 0x7FFFFFFF"
proof -
  have "(0x80000000 AND 0x7FFFFFFF :: 32 word) = 0" by simp
  then show ?thesis by (simp add: bit.conj_disj_distrib2)
qed

text \<open>
  Claim C8. \<open>uint32_to_uniform_float\<close> ignores the top bit of its argument: the result for
  \<open>x\<close> is the result for \<open>x & 0x7FFFFFFF\<close>, and setting the top bit changes nothing. For
  \<open>0x7FFFFFFF\<close> and \<open>0xFFFFFFFF\<close> the results are the same float \<open>1 - 1 / 2 ^ 24\<close>, which is below
  \<open>1\<close> and is the largest value the function returns.
\<close>

theorem uint32_to_uniform_float_ignores_top_bit:
  "uint32_to_uniform_float x = uint32_to_uniform_float (x AND 0x7FFFFFFF) \<and>
   uint32_to_uniform_float (x OR 0x80000000) = uint32_to_uniform_float x \<and>
   uint32_to_uniform_float 0x7FFFFFFF = uint32_to_uniform_float 0xFFFFFFFF \<and>
   uint32_to_uniform_float 0xFFFFFFFF = Finite False (16777215 / 16777216) \<and>
   valof (uint32_to_uniform_float 0xFFFFFFFF) < 1 \<and>
   valof (uint32_to_uniform_float y) \<le> valof (uint32_to_uniform_float 0xFFFFFFFF)"
proof (intro conjI)
  show "uint32_to_uniform_float x = uint32_to_uniform_float (x AND 0x7FFFFFFF)"
    by (simp only: uint32_to_uniform_float_def and_idem31)
  show "uint32_to_uniform_float (x OR 0x80000000) = uint32_to_uniform_float x"
    by (simp only: uint32_to_uniform_float_def or_top)
  show "uint32_to_uniform_float 0x7FFFFFFF = uint32_to_uniform_float 0xFFFFFFFF"
    by (simp only: uint32_to_uniform_float_max uint32_to_uniform_float_ones)
  show "uint32_to_uniform_float 0xFFFFFFFF = Finite False (16777215 / 16777216)"
    by (rule uint32_to_uniform_float_ones)
  show "valof (uint32_to_uniform_float 0xFFFFFFFF) < 1"
    unfolding uint32_to_uniform_float_ones by (simp add: valof_def)
  have "valof (uint32_to_uniform_float y) \<le> 16777215 / 16777216"
    using uint32_to_uniform_float_range(2)[of y]
    by (simp add: uint32_to_uniform_float_value valof_def)
  moreover have "valof (uint32_to_uniform_float 0xFFFFFFFF) = 16777215 / 16777216"
    unfolding uint32_to_uniform_float_ones by (simp add: valof_def)
  ultimately show "valof (uint32_to_uniform_float y) \<le> valof (uint32_to_uniform_float 0xFFFFFFFF)"
    by (simp only:)
qed

lemma scale_props: "is_finite scale" "valof scale = 16777215 / 2 ^ 55"
  by (simp_all add: scale_value is_finite_def valof_def)

text \<open>
  Claim C6. For every 32-bit \<open>x\<close> the result of \<open>uint32_to_uniform_float\<close> is a finite float
  in \<open>[0, 1)\<close>. It is the float product of the low 31 bits of \<open>x\<close>, converted to \<open>float\<close>,
  with the constant \<open>scale\<close>, which is \<open>1 / 2 ^ 31 - 1 / 2 ^ 55\<close> and so below \<open>1 / 2 ^ 31\<close>; it depends on
  the low 31 bits only and does not decrease when they increase.
\<close>

theorem uint32_to_uniform_float_unit_interval:
  "is_finite (uint32_to_uniform_float x) \<and>
   0 \<le> valof (uint32_to_uniform_float x) \<and> valof (uint32_to_uniform_float x) < 1 \<and>
   uint32_to_uniform_float x = f32_mul (float_of_uint32 (x AND 0x7FFFFFFF)) scale \<and>
   is_finite scale \<and> valof scale = 1 / 2 ^ 31 - 1 / 2 ^ 55 \<and> valof scale < 1 / 2 ^ 31 \<and>
   (x AND 0x7FFFFFFF = y AND 0x7FFFFFFF \<longrightarrow>
      uint32_to_uniform_float x = uint32_to_uniform_float y) \<and>
   (unat (x AND 0x7FFFFFFF) \<le> unat (y AND 0x7FFFFFFF) \<longrightarrow>
      valof (uint32_to_uniform_float x) \<le> valof (uint32_to_uniform_float y))"
proof (intro conjI impI)
  show "is_finite (uint32_to_uniform_float x)"
    by (simp add: uint32_to_uniform_float_value is_finite_def)
  show "0 \<le> valof (uint32_to_uniform_float x)"
    using uint32_to_uniform_float_range(1)[of x]
    by (simp add: uint32_to_uniform_float_value valof_def)
  show "valof (uint32_to_uniform_float x) < 1"
    using uint32_to_uniform_float_range(2)[of x]
    by (simp add: uint32_to_uniform_float_value valof_def)
  show "uint32_to_uniform_float x = f32_mul (float_of_uint32 (x AND 0x7FFFFFFF)) scale"
    by (simp only: uint32_to_uniform_float_def)
  show "is_finite scale" by (rule scale_props)
  show "valof scale = 1 / 2 ^ 31 - 1 / 2 ^ 55" by (simp add: scale_props)
  show "valof scale < 1 / 2 ^ 31" by (simp add: scale_props)
next
  assume "x AND 0x7FFFFFFF = y AND 0x7FFFFFFF"
  then show "uint32_to_uniform_float x = uint32_to_uniform_float y"
    by (simp only: uint32_to_uniform_float_def)
next
  assume "unat (x AND 0x7FFFFFFF) \<le> unat (y AND 0x7FFFFFFF)"
  then show "valof (uint32_to_uniform_float x) \<le> valof (uint32_to_uniform_float y)"
    by (rule uint32_to_uniform_float_mono)
qed

lemma round_product_1: "f32_round (f32_round 1 * (16777215 / 2 ^ 55)) = 16777215 / 2 ^ 55"
  by code_simp
lemma round_product_2: "f32_round (f32_round 2 * (16777215 / 2 ^ 55)) = 16777215 / 2 ^ 54"
  by code_simp

theorem uint32_to_uniform_float_unit_interval_witness:
  "(0x80000001 AND 0x7FFFFFFF = (1 :: 32 word) AND 0x7FFFFFFF) \<and>
   uint32_to_uniform_float 0x80000001 = uint32_to_uniform_float 1 \<and>
   unat ((1 :: 32 word) AND 0x7FFFFFFF) \<le> unat ((2 :: 32 word) AND 0x7FFFFFFF) \<and>
   valof (uint32_to_uniform_float 1) \<le> valof (uint32_to_uniform_float 2) \<and>
   valof (uint32_to_uniform_float 1) = 16777215 / 2 ^ 55 \<and>
   valof (uint32_to_uniform_float 2) = 16777215 / 2 ^ 54"
proof -
  have a: "(0x80000001 AND 0x7FFFFFFF :: 32 word) = 1 AND 0x7FFFFFFF" by simp
  have b: "unat ((1 :: 32 word) AND 0x7FFFFFFF) \<le> unat ((2 :: 32 word) AND 0x7FFFFFFF)" by simp
  have c: "(1 AND 0x7FFFFFFF :: 32 word) = 1" "(2 AND 0x7FFFFFFF :: 32 word) = 2" by simp_all
  have d: "valof (uint32_to_uniform_float 1) = 16777215 / 2 ^ 55"
    "valof (uint32_to_uniform_float 2) = 16777215 / 2 ^ 54"
    using round_product_1 round_product_2 by (simp_all add: uint32_to_uniform_float_value c valof_def)
  show ?thesis
    using uint32_to_uniform_float_unit_interval[of "0x80000001" 1]
      uint32_to_uniform_float_unit_interval[of 1 2] a b d
    by simp
qed

subsection \<open>The vectorised mask conversion\<close>

lemma flag_to_float_scalar_loop_result:
  "0 \<le> i \<Longrightarrow> n \<le> int (length dst) \<Longrightarrow>
   \<exists>dst'. flag_to_float_scalar_loop src dst n i = Inr dst' \<and> length dst' = length dst \<and>
     (\<forall>k<length dst. dst' ! k = (if i \<le> int k \<and> int k < n
         then (if src \<noteq> 0 then 0xFFFFFFFF else 0) else dst ! k))"
proof (induction src dst n i rule: flag_to_float_scalar_loop.induct)
  case (1 src dst n i)
  show ?case
  proof (cases "i < n")
    case False
    then show ?thesis by (subst flag_to_float_scalar_loop.simps) auto
  next
    case True
    let ?d = "dst[nat i := (if src \<noteq> 0 then 0xFFFFFFFF else 0)]"
    from True 1(2-3) have ib: "0 \<le> i \<and> nat i < length dst" by auto
    have p1: "0 \<le> i + 1" using ib by simp
    have p3: "n \<le> int (length ?d)" using 1(3) by simp
    have "\<exists>dst'. flag_to_float_scalar_loop src ?d n (i + 1) = Inr dst' \<and>
        length dst' = length ?d \<and>
        (\<forall>k<length ?d. dst' ! k = (if i + 1 \<le> int k \<and> int k < n
           then (if src \<noteq> 0 then 0xFFFFFFFF else 0) else ?d ! k))"
      by (rule 1(1)[OF True ib p1 p3])
    then obtain dst' where d: "flag_to_float_scalar_loop src ?d n (i + 1) = Inr dst'"
      "length dst' = length dst"
      "\<forall>k<length dst. dst' ! k = (if i + 1 \<le> int k \<and> int k < n
         then (if src \<noteq> 0 then 0xFFFFFFFF else 0) else ?d ! k)"
      by auto
    have "flag_to_float_scalar_loop src dst n i = Inr dst'"
      using True ib d(1) by (subst flag_to_float_scalar_loop.simps) simp
    moreover have "\<forall>k<length dst. dst' ! k = (if i \<le> int k \<and> int k < n
         then (if src \<noteq> 0 then 0xFFFFFFFF else 0) else dst ! k)"
    proof (intro allI impI)
      fix k assume k: "k < length dst"
      show "dst' ! k = (if i \<le> int k \<and> int k < n
         then (if src \<noteq> 0 then 0xFFFFFFFF else 0) else dst ! k)"
      proof (cases "k = nat i")
        case True
        then show ?thesis using d(3) k ib \<open>i < n\<close> by (auto simp: nth_list_update)
      next
        case False
        then show ?thesis using d(3) k ib by (auto simp: nth_list_update)
      qed
    qed
    ultimately show ?thesis using d(2) by blast
  qed
qed

lemma f32_round_ones: "f32_round 4294967295 = 4294967296"
  by code_simp

lemma f32_round_small: "f32_round 0 = 0" "f32_round 1 = 1"
  by code_simp+

lemma f32_bits_2p32: "f32_bits (Finite False 4294967296) = 0x4F800000"
  by code_simp

lemma f32_bits_zero: "f32_bits (Finite False 0) = 0"
  by code_simp

lemma f32_bits_one: "f32_bits (Finite False 1) = 0x3F800000"
  by code_simp

lemma f32_bits_minus_one: "f32_bits (Finite True 1) = 0xBF800000"
  by code_simp

lemma float_of_uint32_ones: "float_of_uint32 0xFFFFFFFF = Finite False 4294967296"
  by (simp add: float_of_uint32_finite f32_round_ones)

lemma float_of_uint32_zero: "float_of_uint32 0 = Finite False 0"
  by (simp add: float_of_uint32_finite f32_round_small)

lemma float_of_int32_zero: "float_of_int32 0 = Finite False 0"
  by (simp add: float_of_int32_def f32_of_mag_def f32_round_small)

lemma float_of_int32_one: "float_of_int32 1 = Finite False 1"
  by (simp add: float_of_int32_def f32_of_mag_def f32_round_small)

lemma float_of_int32_minus_one: "float_of_int32 0xFFFFFFFF = Finite True 1"
  by (simp add: float_of_int32_def f32_of_mag_def f32_round_small)

text \<open>
  Claim C2 says that every result lane of every path is all 0-bits or all 1-bits. The two
  \<open>flag_to_float\<close> functions write exactly these two words (see
  \<open>flag_to_float_loop_result\<close> and \<open>flag_to_float_scalar_loop_result\<close>). \<open>to_float_mask\<close> does
  not: a true lane of the generic function holds the float \<open>4294967296.0\<close>, with bit pattern
  \<open>0x4F800000\<close>, whether the source lanes are \<open>float\<close> or \<open>int\<close>; the \<open>int\<close>
  specialisation turns the lane \<open>-1\<close> (all 1-bits) into \<open>-1.0\<close>, \<open>0xBF800000\<close>, and the lane
  \<open>1\<close> into \<open>1.0\<close>, \<open>0x3F800000\<close>.
\<close>

theorem to_float_mask_lanes_at_nonzero:
  "map f32_bits (to_float_mask fp_truthy
      [Finite False 1, Finite False 0, Finite False 0, Finite False 0,
       Finite False 0, Finite False 0, Finite False 0, Finite False 0])
     = [0x4F800000, 0, 0, 0, 0, 0, 0, 0] \<and>
   map f32_bits (to_float_mask int_truthy [0xFFFFFFFF, 0, 0, 0, 0, 0, 0, 0])
     = [0x4F800000, 0, 0, 0, 0, 0, 0, 0] \<and>
   map f32_bits (to_float_mask_int [0xFFFFFFFF, 0, 1, 0, 0, 0, 0, 0])
     = [0xBF800000, 0, 0x3F800000, 0, 0, 0, 0, 0]"
  by (simp add: to_float_mask_def to_float_mask_int_def fp_truthy_def int_truthy_def
      float_of_uint32_ones float_of_uint32_zero float_of_int32_zero float_of_int32_one
      float_of_int32_minus_one f32_bits_2p32 f32_bits_zero f32_bits_one f32_bits_minus_one)

text \<open>
  Claim C3 says that the \<open>int\<close> specialisation gives the lanes the generic function would
  give for the same vector. The code does not do that: for the lane \<open>-1\<close>, the mask an integer
  comparison produces for true, the specialisation gives \<open>-1.0\<close> and the generic function
  \<open>4294967296.0\<close>; for the lane \<open>1\<close> they give \<open>1.0\<close> and \<open>4294967296.0\<close>. Neither is the
  all-ones mask: the generic function loses it in the assignment to a \<open>float\<close>, the
  specialisation converts the number where the generic function tests it.
\<close>

theorem to_float_mask_int_differs:
  "to_float_mask_int [1, 0xFFFFFFFF, 0, 0, 0, 0, 0, 0] ! 0 = Finite False 1 \<and>
   to_float_mask int_truthy [1, 0xFFFFFFFF, 0, 0, 0, 0, 0, 0] ! 0 = Finite False 4294967296 \<and>
   to_float_mask_int [1, 0xFFFFFFFF, 0, 0, 0, 0, 0, 0] ! 1 = Finite True 1 \<and>
   to_float_mask int_truthy [1, 0xFFFFFFFF, 0, 0, 0, 0, 0, 0] ! 1 = Finite False 4294967296 \<and>
   to_float_mask_int [1, 0xFFFFFFFF, 0, 0, 0, 0, 0, 0]
     \<noteq> to_float_mask int_truthy [1, 0xFFFFFFFF, 0, 0, 0, 0, 0, 0] \<and>
   map f32_bits (to_float_mask_int [1, 0xFFFFFFFF, 0, 0, 0, 0, 0, 0])
     = [0x3F800000, 0xBF800000, 0, 0, 0, 0, 0, 0] \<and>
   map f32_bits (to_float_mask int_truthy [1, 0xFFFFFFFF, 0, 0, 0, 0, 0, 0])
     = [0x4F800000, 0x4F800000, 0, 0, 0, 0, 0, 0]"
  by (simp add: to_float_mask_def to_float_mask_int_def int_truthy_def
      float_of_uint32_ones float_of_uint32_zero float_of_int32_one float_of_int32_minus_one
      float_of_int32_zero f32_bits_2p32 f32_bits_zero f32_bits_one f32_bits_minus_one)

text \<open>The two functions agree where the source lane is \<open>0\<close>, and nowhere else.\<close>

lemma to_float_mask_int_zero_lanes:
  "length (to_float_mask_int src) = length src \<and>
   length (to_float_mask int_truthy src) = length src \<and>
   (\<forall>i<length src. src ! i = 0 \<longrightarrow>
      to_float_mask_int src ! i = to_float_mask int_truthy src ! i \<and>
      f32_bits (to_float_mask_int src ! i) = 0)"
  by (simp add: to_float_mask_def to_float_mask_int_def int_truthy_def
      float_of_uint32_zero float_of_int32_zero f32_bits_zero)

text \<open>On every other lane the
  specialisation returns a float of magnitude at most \<open>2 ^ 31\<close>, the generic function
  \<open>2 ^ 32\<close>.\<close>

lemma float_of_int32_finite:
  "float_of_int32 x = Finite (sint x < 0) (f32_round (of_int \<bar>sint x\<bar>))"
  and float_of_int32_bound: "f32_round (of_int \<bar>sint x\<bar>) \<le> 2147483648"
proof -
  have "\<bar>sint x\<bar> \<le> 2 ^ 31" using sint_ge[of x] sint_lt[of x] by (simp add: abs_le_iff)
  then have "(of_int \<bar>sint x\<bar> :: rat) \<le> of_int (2 ^ 31)" by (simp only: of_int_le_iff)
  then have "(of_int \<bar>sint x\<bar> :: rat) \<le> 2147483648" by simp
  then have "f32_round (of_int \<bar>sint x\<bar>) \<le> f32_round 2147483648" by (rule f32_round_mono)
  then show b: "f32_round (of_int \<bar>sint x\<bar>) \<le> 2147483648" by (simp only: f32_round_2p31)
  then have "\<not> 2 ^ 128 \<le> f32_round (of_int \<bar>sint x\<bar>)" by simp
  then show "float_of_int32 x = Finite (sint x < 0) (f32_round (of_int \<bar>sint x\<bar>))"
    by (simp add: float_of_int32_def f32_of_mag_def Let_def)
qed

lemma to_float_mask_int_nonzero_lane:
  assumes "x \<noteq> 0"
  shows "float_of_int32 x \<noteq> float_of_uint32 (if int_truthy x then 0xFFFFFFFF else 0)"
proof -
  have "float_of_uint32 (if int_truthy x then 0xFFFFFFFF else 0) = Finite False 4294967296"
    using assms by (simp add: int_truthy_def float_of_uint32_ones)
  moreover have "float_of_int32 x \<noteq> Finite False 4294967296"
    using float_of_int32_bound[of x] by (simp add: float_of_int32_finite)
  ultimately show ?thesis by simp
qed

subsection \<open>The modulo\<close>




















subsection \<open>The atomic addition, one thread\<close>

text \<open>
  Claim C10. When no other thread modifies the target location during the call,
  \<open>atomic_add\<close> returns after its first compare-exchange, which succeeds: the loop body is
  executed zero times. The memory on return is the memory the other threads left, with
  the target location replaced by its value at entry plus the offset; the call writes
  nowhere else. Without any other thread the result is the memory at entry with the
  target location updated.
\<close>

theorem atomic_add_uncontended:
  "((\<forall>k m. env k m addr = m addr) \<longrightarrow>
      atomic_add env add mem addr offset
        = Some ((env 0 mem)(addr := add (mem addr) offset), 0)) \<and>
   atomic_add (\<lambda>k m. m) add mem addr offset = Some (mem(addr := add (mem addr) offset), 0)"
proof (intro conjI impI)
  assume "\<forall>k m. env k m addr = m addr"
  then have e: "env 0 mem addr = mem addr" by simp
  show "atomic_add env add mem addr offset
        = Some ((env 0 mem)(addr := add (mem addr) offset), 0)"
    unfolding atomic_add_def Let_def
    by (subst atomic_add_loop.simps) (simp add: atomic_compare_exchange_strong_def e)
next
  show "atomic_add (\<lambda>k m. m) add mem addr offset = Some (mem(addr := add (mem addr) offset), 0)"
    unfolding atomic_add_def Let_def
    by (subst atomic_add_loop.simps) (simp add: atomic_compare_exchange_strong_def)
qed

theorem atomic_add_uncontended_witness:
  "(\<forall>k m. (\<lambda>k m. m) k m (5 :: nat) = (m :: 32 word memory) 5) \<and>
   atomic_add (\<lambda>k m. m) (+) (\<lambda>a. 40 :: 32 word) 5 2 = Some ((\<lambda>a. 40)(5 := 42), 0)"
proof -
  have h: "\<forall>k m. (\<lambda>k m. m) k m (5 :: nat) = (m :: 32 word memory) 5" by simp
  from atomic_add_uncontended[where env = "\<lambda>k m. m" and addr = 5 and add = "(+)"
      and mem = "\<lambda>a. 40 :: 32 word" and offset = 2] h
  show ?thesis by simp
qed

text \<open>With interference the loop body does run: if another thread changes the target
  between the first read and the first exchange, and nobody does afterwards, the body is
  executed once and the offset is added to the value the other thread wrote.\<close>

lemma atomic_add_one_retry:
  assumes "env 0 mem addr \<noteq> mem addr"
    and "\<forall>k m. 0 < k \<longrightarrow> env k m addr = m addr"
  shows "atomic_add env add mem addr offset
           = Some ((env 2 (env 1 (env 0 mem)))(addr := add (env 0 mem addr) offset), 1)"
proof -
  have e1: "env (Suc 0) (env 0 mem) addr = env 0 mem addr" using assms(2) by simp
  have e2: "env (Suc (Suc 0)) (env (Suc 0) (env 0 mem)) addr = env 0 mem addr"
    using assms(2) by simp
  show ?thesis
    unfolding atomic_add_def Let_def
    apply (subst atomic_add_loop.simps)
    apply (simp add: atomic_compare_exchange_strong_def assms(1))
    apply (subst atomic_add_loop.simps)
    apply (simp add: atomic_compare_exchange_strong_def e1 e2 Let_def numeral_2_eq_2)
    done
qed

subsection \<open>The atomic addition, several threads\<close>







text \<open>A single thread that runs alone takes two steps for a call, and leaves the memory
  that \<open>atomic_add\<close> returns when nothing interferes.\<close>

lemma single_thread_run:
  "atomic_add (\<lambda>k m. m) add mem addr offset
     = Some (shared (run add addr offset [0, 0] (start 1 1 mem)), 0)"
proof -
  have "run add addr offset [0, 0] (start 1 1 mem)
      = \<lparr>shared = mem(addr := add (mem addr) offset),
         threads = [\<lparr>pc = AtLoad, calls_left = 0\<rparr>]\<rparr>"
    by (simp add: run_def step_def thread_step_def start_def atomic_compare_exchange_strong_def
        Let_def)
  moreover have "atomic_add (\<lambda>k m. m) add mem addr offset
      = Some (mem(addr := add (mem addr) offset), 0)"
    unfolding atomic_add_def Let_def
    by (subst atomic_add_loop.simps) (simp add: atomic_compare_exchange_strong_def)
  ultimately show ?thesis by simp
qed









lemma step_other_thread:
  assumes "j \<noteq> i"
  shows "threads (step add addr offset j s) ! i = threads s ! i"
  using assms by (simp add: step_def split_beta Let_def)













subsection \<open>The integer alias\<close>

text \<open>
  Claim C9. \<open>AsIntegerType\<close> maps every scalar type to a type of the same size: \<open>float\<close> to
  the 4-byte \<open>uint32_t\<close>, \<open>double\<close> to the 8-byte \<open>uint64_t\<close>, \<open>bfloat16\<close> and \<open>half\<close> to the
  2-byte \<open>uint16_t\<close>, and every other type to itself. Instantiating \<open>atomic_add<T>\<close> fails
  with the static assertion exactly when \<open>std::atomic\<close> of the alias does not have the
  size of \<open>T\<close>; where \<open>std::atomic<U>\<close> has the size of \<open>U\<close> every instantiation succeeds.
\<close>

theorem AsIntegerType_same_size:
  "sizeof (AsIntegerType T) = sizeof T \<and>
   AsIntegerType Float = UInt32 \<and> sizeof Float = 4 \<and> sizeof UInt32 = 4 \<and>
   AsIntegerType Double = UInt64 \<and> sizeof Double = 8 \<and> sizeof UInt64 = 8 \<and>
   AsIntegerType BFloat16 = UInt16 \<and> AsIntegerType Half = UInt16 \<and>
   sizeof BFloat16 = 2 \<and> sizeof Half = 2 \<and> sizeof UInt16 = 2 \<and>
   (T \<noteq> Float \<and> T \<noteq> Double \<and> T \<noteq> BFloat16 \<and> T \<noteq> Half \<longrightarrow> AsIntegerType T = T) \<and>
   (sizeof_atomic (AsIntegerType T) \<noteq> sizeof T \<longrightarrow>
      atomic_add_instantiate sizeof_atomic T = Inl (StaticAssertFailed ''std::atomic issue'')) \<and>
   (sizeof_atomic (AsIntegerType T) = sizeof T \<longrightarrow>
      atomic_add_instantiate sizeof_atomic T = Inr (AsIntegerType T)) \<and>
   atomic_add_instantiate sizeof T = Inr (AsIntegerType T)"
  by (cases T) (simp_all add: atomic_add_instantiate_def)

theorem AsIntegerType_same_size_witness:
  "(Int32 \<noteq> Float \<and> Int32 \<noteq> Double \<and> Int32 \<noteq> BFloat16 \<and> Int32 \<noteq> Half) \<and>
   AsIntegerType Int32 = Int32 \<and>
   (\<lambda>U. 16) (AsIntegerType Float) \<noteq> sizeof Float \<and>
   atomic_add_instantiate (\<lambda>U. 16) Float = Inl (StaticAssertFailed ''std::atomic issue'') \<and>
   sizeof (AsIntegerType Float) = sizeof Float \<and>
   atomic_add_instantiate sizeof Float = Inr UInt32"
  using AsIntegerType_same_size[of Int32 sizeof] AsIntegerType_same_size[of Float "\<lambda>U. 16"]
    AsIntegerType_same_size[of Float sizeof]
  by simp


end
